theory Spec2Isabelle
  imports Main
begin

section \<open>FormWatcher (src/index.js): data model\<close>

text \<open>
  The tracker keeps three JavaScript \<^verbatim>\<open>Map\<close>s from field ids to snapshots. A JavaScript
  Map iterates in insertion order, \<^verbatim>\<open>set\<close> on a key already present overwrites the value in
  place and \<^verbatim>\<open>set\<close> on a new key appends it, so a Map is modelled as an association list
  with exactly these operations.
\<close>

type_synonym ('k, 'v) jsmap = "('k \<times> 'v) list"

definition Map_get :: "('k, 'v) jsmap \<Rightarrow> 'k \<Rightarrow> 'v option" where
  "Map_get m k = map_of m k"

definition Map_has :: "('k, 'v) jsmap \<Rightarrow> 'k \<Rightarrow> bool" where
  "Map_has m k = (Map_get m k \<noteq> None)"

fun Map_set :: "'k \<Rightarrow> 'v \<Rightarrow> ('k, 'v) jsmap \<Rightarrow> ('k, 'v) jsmap" where
  "Map_set k v [] = [(k, v)]"
| "Map_set k v ((k', v') # m) = (if k' = k then (k, v) # m else (k', v') # Map_set k v m)"

definition Map_delete :: "'k \<Rightarrow> ('k, 'v) jsmap \<Rightarrow> ('k, 'v) jsmap" where
  "Map_delete k m = filter (\<lambda>(k', v'). k' \<noteq> k) m"

definition Map_keys :: "('k, 'v) jsmap \<Rightarrow> 'k list" where
  "Map_keys m = map fst m"

text \<open>
  A field value is a string, or an array of strings for a multi-select. The property
  \<^verbatim>\<open>checked\<close> of a snapshot is a boolean for checkboxes and radios and \<^verbatim>\<open>undefined\<close>
  (here \<open>None\<close>) otherwise. A snapshot also holds the reference to its DOM element.
\<close>

datatype fvalue = Scalar string | Sequence "string list"

record snapshot =
  s_field :: nat
  s_value :: fvalue
  s_checked :: "bool option"

text \<open>
  What the code reads of a DOM element. \<open>el_ref\<close> is the identity of the element,
  \<open>el_matches\<close> is the host's \<^verbatim>\<open>Element.matches\<close> for this element (CSS matching is
  the browser's), and the other fields are the properties of the same names. An empty
  string stands for an absent string property, which JavaScript treats as falsy too.
\<close>

record elem =
  el_ref :: nat
  el_tagName :: string
  el_type :: string
  el_name :: string
  el_id :: string
  el_value :: string
  el_checked :: bool
  el_multiple :: bool
  el_selectedOptions :: "string list"
  el_matches :: "string \<Rightarrow> bool"

datatype node = NonElement | Element elem "node list"

record event =
  ev_id :: nat
  ev_target :: elem

record mutation =
  addedNodes :: "node list"
  removedNodes :: "node list"

text \<open>The records pushed by \<^verbatim>\<open>getChanges\<close>.\<close>

record change =
  c_id :: string
  c_field :: nat
  c_value :: fvalue
  c_checked :: "bool option"

record readded = change +
  previousValue :: fvalue
  previousChecked :: "bool option"

record modification =
  m_id :: string
  original :: snapshot
  current :: snapshot

record changes =
  added :: "change list"
  removed :: "change list"
  modified :: "modification list"
  reAdded :: "readded list"

text \<open>
  The state of a constructed tracker together with the part of the host it acts on.
  Tracker properties keep their names. \<open>timeoutId\<close> is the variable captured by the
  closure that \<^verbatim>\<open>debounce\<close> returns. Of the host: \<open>dataset\<close> gives each element's
  \<^verbatim>\<open>dataset.formWatcherId\<close>, \<open>randomUUID\<close> with \<open>uuidCount\<close> is the supply behind
  \<^verbatim>\<open>crypto.randomUUID()\<close>, \<open>now\<close> is the clock in milliseconds, \<open>timers\<close> are the
  pending timeouts (identifier, due time) in creation order, \<open>listeners\<close> and \<open>observing\<close> record
  what the constructor registered on the form, and \<open>calls\<close> logs every invocation of
  the \<^verbatim>\<open>onFormChanged\<close> callback with its three arguments.
\<close>

record state =
  DEBOUNCE_DELAY :: nat
  excludeSelectors :: "string list"
  onFormChanged :: bool
  originalState :: "(string, snapshot) jsmap"
  currentState :: "(string, snapshot) jsmap"
  removedFields :: "(string, snapshot) jsmap"
  lastEvent :: "event option"
  timeoutId :: "nat option"
  dataset :: "nat \<Rightarrow> string"
  randomUUID :: "nat \<Rightarrow> string"
  uuidCount :: nat
  now :: nat
  timers :: "(nat \<times> nat) list"
  nextTimer :: nat
  listeners :: "string list"
  observing :: bool
  calls :: "(bool \<times> changes \<times> event option) list"

section \<open>Strings and the DOM queries\<close>

definition toLowerChar :: "char \<Rightarrow> char" where
  "toLowerChar c =
     (case map_of (zip ''ABCDEFGHIJKLMNOPQRSTUVWXYZ'' ''abcdefghijklmnopqrstuvwxyz'') c of
        Some l \<Rightarrow> l
      | None \<Rightarrow> c)"

definition toLowerCase :: "string \<Rightarrow> string" where
  "toLowerCase s = map toLowerChar s"

text \<open>\<^verbatim>\<open>selector.replace(/^#/, '')\<close>: one leading hash is dropped.\<close>

fun stripHash :: "string \<Rightarrow> string" where
  "stripHash [] = []"
| "stripHash (c # cs) = (if c = CHR ''#'' then cs else c # cs)"

text \<open>The elements of a subtree in document order, the root first.\<close>

fun elements :: "node \<Rightarrow> elem list" where
  "elements NonElement = []"
| "elements (Element e cs) = e # concat (map elements cs)"

definition descendants :: "node \<Rightarrow> elem list" where
  "descendants n = (case n of NonElement \<Rightarrow> [] | Element e cs \<Rightarrow> concat (map elements cs))"

text \<open>\<^verbatim>\<open>matches('input, select, textarea')\<close> and the query with the same selector.\<close>

definition isFormField :: "elem \<Rightarrow> bool" where
  "isFormField e = (toLowerCase (el_tagName e) \<in> {''input'', ''select'', ''textarea''})"

definition queryFields :: "node \<Rightarrow> elem list" where
  "queryFields n = filter isFormField (descendants n)"

text \<open>The exceptions the code can raise.\<close>

datatype error = TypeError | SyntaxError

text \<open>
  \<^verbatim>\<open>querySelectorAll(`input[type="radio"][name="${name}"]`)\<close> on the form. The name is
  pasted into a double-quoted CSS string without escaping: a double quote (0x22) or a line
  break (0x0A, 0x0C, 0x0D) in it ends the string early, the text is then not a selector
  and the call raises a SyntaxError. Otherwise the result is the radio inputs under the
  form with that name. CSS escapes are not interpreted: a name with a backslash is
  compared as it is written.
\<close>

definition breaksQuotedString :: "char \<Rightarrow> bool" where
  "breaksQuotedString c = (c = CHR 0x22 \<or> c = CHR 0x0A \<or> c = CHR 0x0C \<or> c = CHR 0x0D)"

definition queryRadioGroup :: "node \<Rightarrow> string \<Rightarrow> error + elem list" where
  "queryRadioGroup form name =
     (if list_ex breaksQuotedString name then Inl SyntaxError
      else Inr (filter (\<lambda>e. toLowerCase (el_tagName e) = ''input'' \<and> el_type e = ''radio'' \<and>
                          el_name e = name)
                 (descendants form)))"

section \<open>The methods of FormWatcher\<close>

subsection \<open>debounce\<close>

text \<open>
  \<^verbatim>\<open>clearTimeout(id)\<close> drops the pending timeout with that id, if there is one;
  \<^verbatim>\<open>setTimeout(f, delay)\<close> creates a timeout with a fresh id that is due \<open>delay\<close>
  milliseconds from now. The only function ever scheduled is \<^verbatim>\<open>checkForChanges\<close>.
\<close>

definition clearTimeout :: "nat option \<Rightarrow> state \<Rightarrow> state" where
  "clearTimeout tid s = s\<lparr>timers := filter (\<lambda>(i, due). Some i \<noteq> tid) (timers s)\<rparr>"

definition setTimeout :: "nat \<Rightarrow> state \<Rightarrow> nat \<times> state" where
  "setTimeout delay s =
     (nextTimer s, s\<lparr>timers := timers s @ [(nextTimer s, now s + delay)], nextTimer := Suc (nextTimer s)\<rparr>)"

definition debouncedCheckForChanges :: "state \<Rightarrow> state" where
  "debouncedCheckForChanges s =
     (let s1 = clearTimeout (timeoutId s) s;
          (tid, s2) = setTimeout (DEBOUNCE_DELAY s1) s1
      in s2\<lparr>timeoutId := Some tid\<rparr>)"

subsection \<open>getFieldId, valuesAreEqual, isExcluded, getOrSetFieldID, formatFieldState\<close>

definition getFieldId :: "state \<Rightarrow> elem \<Rightarrow> string" where
  "getFieldId s field =
     (if dataset s (el_ref field) \<noteq> [] then dataset s (el_ref field)
      else if el_id field \<noteq> [] then el_id field
      else [])"

text \<open>
  \<^verbatim>\<open>value2[index]\<close> past the end of the array is \<^verbatim>\<open>undefined\<close>, which no string equals.
\<close>

definition arrayAt :: "'a list \<Rightarrow> nat \<Rightarrow> 'a option" where
  "arrayAt xs i = (if i < length xs then Some (xs ! i) else None)"

text \<open>Strict equality of two field values: an array never equals a string.\<close>

fun strictEquals :: "fvalue \<Rightarrow> fvalue \<Rightarrow> bool" where
  "strictEquals (Scalar a) (Scalar b) = (a = b)"
| "strictEquals (Sequence a) (Sequence b) = (a = b)"
| "strictEquals _ _ = False"

fun valuesAreEqual :: "fvalue \<Rightarrow> fvalue \<Rightarrow> bool" where
  "valuesAreEqual (Sequence value1) (Sequence value2) =
     (if length value1 \<noteq> length value2 then False
      else list_all (\<lambda>(val, index). Some val = arrayAt value2 index)
             (zip value1 [0..<length value1]))"
| "valuesAreEqual value1 value2 = strictEquals value1 value2"

text \<open>
  The condition both entry points test on two snapshots:
  \<^verbatim>\<open>!this.valuesAreEqual(a.value, b.value) || a.checked !== b.checked\<close>.
\<close>

definition snapshotsDiffer :: "snapshot \<Rightarrow> snapshot \<Rightarrow> bool" where
  "snapshotsDiffer a b = (\<not> valuesAreEqual (s_value a) (s_value b) \<or> s_checked a \<noteq> s_checked b)"

text \<open>
  The configured exclusion selectors are taken to be valid selectors: \<open>el_matches\<close>
  answers for each of them.
\<close>

definition isExcluded :: "state \<Rightarrow> elem \<Rightarrow> bool" where
  "isExcluded s field =
     list_ex (\<lambda>selector. el_matches field selector \<or> getFieldId s field = stripHash selector)
       (excludeSelectors s)"

definition getOrSetFieldID :: "elem \<Rightarrow> state \<Rightarrow> string \<times> state" where
  "getOrSetFieldID field s =
     (let fid = getFieldId s field in
      if fid = [] then
        (let uuid = randomUUID s (uuidCount s);
             fid' = (if el_name field \<noteq> [] then el_name field @ ''-'' @ uuid
                    else el_type field @ ''-'' @ uuid)
         in (fid', s\<lparr>dataset := (dataset s)(el_ref field := fid'), uuidCount := Suc (uuidCount s)\<rparr>))
      else (fid, s))"

definition formatFieldState :: "elem \<Rightarrow> snapshot" where
  "formatFieldState field =
     (let checked = (if el_type field = ''checkbox'' \<or> el_type field = ''radio''
                     then Some (el_checked field) else None);
          val = (if toLowerCase (el_tagName field) = ''select'' \<and> el_multiple field
                 then Sequence (el_selectedOptions field)
                 else Scalar (el_value field))
      in \<lparr>s_field = el_ref field, s_value = val, s_checked = checked\<rparr>)"

subsection \<open>updateCurrentState and the handlers\<close>

definition updateCurrentState :: "elem \<Rightarrow> state \<Rightarrow> state" where
  "updateCurrentState field s =
     (let (fid, s1) = getOrSetFieldID field s;
          s2 = s1\<lparr>currentState := Map_set fid (formatFieldState field) (currentState s1)\<rparr>
      in debouncedCheckForChanges s2)"

text \<open>
  The listener for \<^verbatim>\<open>change\<close>. \<open>form\<close> is the form's subtree at the time of the event,
  which the radio-group query reads. When that query raises, the listener stops there:
  the result is the exception together with the state it left, in which \<open>lastEvent\<close> is
  already assigned.
\<close>

definition onChange :: "event \<Rightarrow> node \<Rightarrow> state \<Rightarrow> error option \<times> state" where
  "onChange e form s =
     (if isFormField (ev_target e) \<and> \<not> isExcluded s (ev_target e) then
        (let s1 = s\<lparr>lastEvent := Some e\<rparr> in
         if el_type (ev_target e) = ''radio'' \<and> el_name (ev_target e) \<noteq> []
         then (case queryRadioGroup form (el_name (ev_target e)) of
                 Inl err \<Rightarrow> (Some err, s1)
               | Inr radios \<Rightarrow> (None, fold updateCurrentState radios s1))
         else (None, updateCurrentState (ev_target e) s1))
      else (None, s))"

text \<open>The listener for \<^verbatim>\<open>input\<close>.\<close>

definition onInput :: "event \<Rightarrow> state \<Rightarrow> state" where
  "onInput e s =
     (let target = ev_target e in
      if \<not> isExcluded s target \<and>
         (toLowerCase (el_tagName target) = ''textarea'' \<or>
          (toLowerCase (el_tagName target) = ''input'' \<and> el_type target = ''text''))
      then updateCurrentState target (s\<lparr>lastEvent := Some e\<rparr>)
      else s)"

text \<open>The MutationObserver callback, from the innermost loop body outwards.\<close>

definition fieldsOf :: "node \<Rightarrow> elem list" where
  "fieldsOf n =
     (case n of
        NonElement \<Rightarrow> []
      | Element e cs \<Rightarrow> if isFormField e then [e] else queryFields n)"

definition addedField :: "elem \<Rightarrow> state \<Rightarrow> state" where
  "addedField field s = (if isExcluded s field then s else updateCurrentState field s)"

definition removedField :: "elem \<Rightarrow> state \<Rightarrow> state" where
  "removedField field s =
     (if isExcluded s field then s
      else
        (let fid = getFieldId s field in
         if fid \<noteq> [] \<and> Map_has (currentState s) fid then
           (case Map_get (currentState s) fid of
              Some data \<Rightarrow>
                debouncedCheckForChanges
                  (s\<lparr>removedFields := Map_set fid data (removedFields s),
                     currentState := Map_delete fid (currentState s)\<rparr>)
            | None \<Rightarrow> s)
         else s))"

definition onMutation :: "mutation \<Rightarrow> state \<Rightarrow> state" where
  "onMutation m s =
     (let s1 = fold (\<lambda>n. fold addedField (fieldsOf n)) (addedNodes m) s
      in fold (\<lambda>n. fold removedField (fieldsOf n)) (removedNodes m) s1)"

definition observerCallback :: "mutation list \<Rightarrow> state \<Rightarrow> state" where
  "observerCallback mutations s = fold onMutation mutations s"

subsection \<open>getChanges\<close>

definition emptyChanges :: changes where
  "emptyChanges = \<lparr>added = [], removed = [], modified = [], reAdded = []\<rparr>"

text \<open>The body of the first loop of \<^verbatim>\<open>getChanges\<close>, for one entry of currentState.\<close>

definition classifyLive :: "state \<Rightarrow> string \<times> snapshot \<Rightarrow> changes \<Rightarrow> changes" where
  "classifyLive s entry acc =
     (case entry of (fid, data) \<Rightarrow>
        (case Map_get (originalState s) fid of
           None \<Rightarrow>
             (case Map_get (removedFields s) fid of
                Some removedData \<Rightarrow>
                  acc\<lparr>reAdded := reAdded acc @
                    [\<lparr>c_id = fid, c_field = s_field data, c_value = s_value data,
                      c_checked = s_checked data, previousValue = s_value removedData,
                      previousChecked = s_checked removedData\<rparr>]\<rparr>
              | None \<Rightarrow>
                  acc\<lparr>added := added acc @
                    [\<lparr>c_id = fid, c_field = s_field data, c_value = s_value data,
                      c_checked = s_checked data\<rparr>]\<rparr>)
         | Some originalData \<Rightarrow>
             if snapshotsDiffer originalData data
             then acc\<lparr>modified := modified acc @
                    [\<lparr>m_id = fid, original = originalData, current = data\<rparr>]\<rparr>
             else acc))"

text \<open>The body of the second loop, for one entry of originalState.\<close>

definition classifyOriginal :: "state \<Rightarrow> string \<times> snapshot \<Rightarrow> changes \<Rightarrow> changes" where
  "classifyOriginal s entry acc =
     (case entry of (fid, data) \<Rightarrow>
        if \<not> Map_has (currentState s) fid
        then acc\<lparr>removed := removed acc @
               [\<lparr>c_id = fid, c_field = s_field data, c_value = s_value data,
                 c_checked = s_checked data\<rparr>]\<rparr>
        else acc)"

definition getChanges :: "state \<Rightarrow> changes" where
  "getChanges s =
     fold (classifyOriginal s) (originalState s)
       (fold (classifyLive s) (currentState s) emptyChanges)"

subsection \<open>checkForChanges\<close>

text \<open>
  The first loop with its \<^verbatim>\<open>break\<close>s: the result is the value of \<^verbatim>\<open>hasChanges\<close> when
  the loop is left.
\<close>

fun liveLoop :: "state \<Rightarrow> (string \<times> snapshot) list \<Rightarrow> bool" where
  "liveLoop s [] = False"
| "liveLoop s ((fid, data) # rest) =
     (case Map_get (originalState s) fid of
        None \<Rightarrow>
          if Map_has (removedFields s) fid then
            (case Map_get (removedFields s) fid of
               Some removedData \<Rightarrow>
                 if snapshotsDiffer removedData data then True else liveLoop s rest
             | None \<Rightarrow> liveLoop s rest)
          else True
      | Some originalData \<Rightarrow>
          if snapshotsDiffer originalData data then True else liveLoop s rest)"

fun originalLoop :: "state \<Rightarrow> string list \<Rightarrow> bool" where
  "originalLoop s [] = False"
| "originalLoop s (fid # rest) =
     (if \<not> Map_has (currentState s) fid then True else originalLoop s rest)"

definition hasChanges :: "state \<Rightarrow> bool" where
  "hasChanges s =
     (if liveLoop s (currentState s) then True
      else originalLoop s (Map_keys (originalState s)))"

definition checkForChanges :: "state \<Rightarrow> bool \<times> state" where
  "checkForChanges s =
     (let h = hasChanges s;
          s' = (if onFormChanged s
                then s\<lparr>calls := calls s @ [(h, getChanges s, lastEvent s)]\<rparr>
                else s)
      in (h, s'))"

subsection \<open>resetState\<close>

definition resetState :: "state \<Rightarrow> state" where
  "resetState s =
     (let s1 = s\<lparr>currentState := []\<rparr>;
          s2 = fold (\<lambda>(fid, data) t. t\<lparr>currentState := Map_set fid data (currentState t)\<rparr>)
                 (originalState s1) s1
      in debouncedCheckForChanges s2)"

subsection \<open>The constructor\<close>

record options =
  opt_debounceDelay :: "nat option"
  opt_excludeSelectors :: "string list option"
  opt_onFormChanged :: bool

text \<open>
  The first argument is a selector string or an element reference (which may be null).
  \<open>opt_onFormChanged\<close> says whether \<^verbatim>\<open>typeof options.onFormChanged === 'function'\<close>.
  The page the constructor runs in: \<open>doc_querySelector\<close> is \<^verbatim>\<open>document.querySelector\<close>,
  which returns the first matching element, or null when the selector matches nothing, or
  raises a SyntaxError when the string is not a valid selector; \<open>h_console\<close> collects
  what \<^verbatim>\<open>console.error\<close> printed.
\<close>

datatype target = Selector string | ElementRef "node option"

record host =
  doc_querySelector :: "string \<Rightarrow> error + node option"
  h_dataset :: "nat \<Rightarrow> string"
  h_randomUUID :: "nat \<Rightarrow> string"
  h_now :: nat
  h_console :: "string list"

text \<open>
  An instance whose constructor returned early has the property \<^verbatim>\<open>form\<close> (null) and
  nothing else: no maps, no debounced function, nothing registered on the page.
\<close>

datatype watcher = Inert | Wired state

text \<open>
  The first statement of the constructor:
  \<^verbatim>\<open>typeof x === 'string' ? document.querySelector(x) : x\<close>.
\<close>

definition resolveForm :: "host \<Rightarrow> target \<Rightarrow> error + node option" where
  "resolveForm h t =
     (case t of Selector sel \<Rightarrow> doc_querySelector h sel | ElementRef r \<Rightarrow> Inr r)"

definition initializeState :: "node \<Rightarrow> state \<Rightarrow> state" where
  "initializeState form s =
     fold (\<lambda>field t.
             if isExcluded t field then t
             else
               (let (fid, t1) = getOrSetFieldID field t in
                t1\<lparr>originalState := Map_set fid (formatFieldState field) (originalState t1),
                   currentState := Map_set fid (formatFieldState field) (currentState t1)\<rparr>))
       (queryFields form) s"

definition setupEventListeners :: "state \<Rightarrow> state" where
  "setupEventListeners s = s\<lparr>listeners := listeners s @ [''change'', ''input'']\<rparr>"

definition setupMutationObserver :: "state \<Rightarrow> state" where
  "setupMutationObserver s = s\<lparr>observing := True\<rparr>"

text \<open>The properties the constructor sets before it calls \<^verbatim>\<open>initializeState\<close>.\<close>

definition freshState :: "options \<Rightarrow> host \<Rightarrow> state" where
  "freshState opts h =
     \<lparr>DEBOUNCE_DELAY = (case opt_debounceDelay opts of Some d \<Rightarrow> d | None \<Rightarrow> 300),
      excludeSelectors = (case opt_excludeSelectors opts of Some xs \<Rightarrow> xs | None \<Rightarrow> []),
      onFormChanged = opt_onFormChanged opts,
      originalState = [], currentState = [], removedFields = [],
      lastEvent = None, timeoutId = None,
      dataset = h_dataset h, randomUUID = h_randomUUID h, uuidCount = 0,
      now = h_now h, timers = [], nextTimer = 0,
      listeners = [], observing = False, calls = []\<rparr>"

definition wire :: "node \<Rightarrow> options \<Rightarrow> host \<Rightarrow> state" where
  "wire form opts h =
     setupMutationObserver (setupEventListeners (initializeState form (freshState opts h)))"

text \<open>
  An exception of the lookup leaves the constructor before anything is printed or set.
  The exclusion selectors of the options are taken to be valid selectors, so that
  \<^verbatim>\<open>field.matches(selector)\<close> returns a boolean.
\<close>

definition constructor :: "target \<Rightarrow> options \<Rightarrow> host \<Rightarrow> error + watcher \<times> host" where
  "constructor t opts h =
     (case resolveForm h t of
        Inl err \<Rightarrow> Inl err
      | Inr None \<Rightarrow> Inr (Inert, h\<lparr>h_console := h_console h @ [''Form not found'']\<rparr>)
      | Inr (Some form) \<Rightarrow> Inr (Wired (wire form opts h), h))"

subsection \<open>The event loop\<close>

text \<open>
  Time passing: the timeouts that are due by the new time run, in creation order (all are
  created with the same delay, so this is the order in which they fall due), and each runs
  \<^verbatim>\<open>checkForChanges\<close>.
\<close>

definition dueTimers :: "nat \<Rightarrow> state \<Rightarrow> (nat \<times> nat) list" where
  "dueTimers t s = filter (\<lambda>(i, due). due \<le> t) (timers s)"

definition elapse :: "nat \<Rightarrow> state \<Rightarrow> state" where
  "elapse dt s =
     (let t = now s + dt;
          s1 = s\<lparr>now := t, timers := filter (\<lambda>(i, due). \<not> due \<le> t) (timers s)\<rparr>
      in fold (\<lambda>timer u. snd (checkForChanges u)) (dueTimers t s) s1)"

text \<open>
  What can happen to a constructed tracker: the page dispatches an event to a registered
  listener, delivers mutation records to the observer, time passes, or the application
  calls a public method. An exception that leaves a listener is reported by the page, which
  goes on with the state the listener left.
\<close>

datatype action =
    ChangeEvent event node
  | InputEvent event
  | MutationRecords "mutation list"
  | Elapse nat
  | CallCheckForChanges
  | CallGetChanges
  | CallResetState

fun step :: "action \<Rightarrow> state \<Rightarrow> state" where
  "step (ChangeEvent e form) s =
     (if ''change'' \<in> set (listeners s) then snd (onChange e form s) else s)"
| "step (InputEvent e) s = (if ''input'' \<in> set (listeners s) then onInput e s else s)"
| "step (MutationRecords ms) s = (if observing s then observerCallback ms s else s)"
| "step (Elapse dt) s = elapse dt s"
| "step CallCheckForChanges s = snd (checkForChanges s)"
| "step CallGetChanges s = s"
| "step CallResetState s = resetState s"

definition run :: "action list \<Rightarrow> state \<Rightarrow> state" where
  "run acts s = fold step acts s"

text \<open>
  The public methods on an instance. On an inert instance \<^verbatim>\<open>this.currentState\<close> and
  \<^verbatim>\<open>this.originalState\<close> are undefined: \<^verbatim>\<open>for (... of this.currentState)\<close> in
  \<^verbatim>\<open>checkForChanges\<close> and \<^verbatim>\<open>getChanges\<close>, and \<^verbatim>\<open>this.currentState.clear()\<close> in
  \<^verbatim>\<open>resetState\<close>, raise a TypeError.
\<close>

fun public_checkForChanges :: "watcher \<Rightarrow> error + (bool \<times> watcher)" where
  "public_checkForChanges Inert = Inl TypeError"
| "public_checkForChanges (Wired s) = Inr (fst (checkForChanges s), Wired (snd (checkForChanges s)))"

fun public_getChanges :: "watcher \<Rightarrow> error + changes" where
  "public_getChanges Inert = Inl TypeError"
| "public_getChanges (Wired s) = Inr (getChanges s)"

fun public_resetState :: "watcher \<Rightarrow> error + watcher" where
  "public_resetState Inert = Inl TypeError"
| "public_resetState (Wired s) = Inr (Wired (resetState s))"

text \<open>
  Page activity reaching an instance: nothing was registered for an inert one, so events,
  mutation records and the passing of time do not touch it.
\<close>

fun deliver :: "action \<Rightarrow> watcher \<Rightarrow> error + watcher" where
  "deliver a (Wired s) = Inr (Wired (step a s))"
| "deliver CallCheckForChanges Inert = Inl TypeError"
| "deliver CallGetChanges Inert = Inl TypeError"
| "deliver CallResetState Inert = Inl TypeError"
| "deliver a Inert = Inr Inert"

subsection \<open>A burst of triggers\<close>



text \<open>
  The invariant of the closure of \<^verbatim>\<open>debounce\<close>: a pending timeout is the one whose id
  the closure holds.
\<close>

definition onePending :: "state \<Rightarrow> bool" where
  "onePending s =
     (case timers s of
        [] \<Rightarrow> True
      | (tid, due) # others \<Rightarrow> others = [] \<and> timeoutId s = Some tid)"

subsection \<open>Pages used in the examples\<close>

definition textInput :: "nat \<Rightarrow> string \<Rightarrow> string \<Rightarrow> elem" where
  "textInput r i v =
     \<lparr>el_ref = r, el_tagName = ''INPUT'', el_type = ''text'', el_name = [], el_id = i,
      el_value = v, el_checked = False, el_multiple = False, el_selectedOptions = [],
      el_matches = (\<lambda>sel. False)\<rparr>"

definition formElement :: elem where
  "formElement =
     \<lparr>el_ref = 0, el_tagName = ''FORM'', el_type = [], el_name = [], el_id = ''myForm'',
      el_value = [], el_checked = False, el_multiple = False, el_selectedOptions = [],
      el_matches = (\<lambda>sel. sel = ''#myForm'')\<rparr>"

definition pageWith :: "node list \<Rightarrow> host" where
  "pageWith children =
     \<lparr>doc_querySelector =
        (\<lambda>sel. if sel = ''#myForm'' then Inr (Some (Element formElement children))
               else if sel = ''#'' then Inl SyntaxError
               else Inr None),
      h_dataset = (\<lambda>r. []), h_randomUUID = (\<lambda>n. replicate (Suc n) CHR ''u''), h_now = 0,
      h_console = []\<rparr>"

definition withCallback :: options where
  "withCallback = \<lparr>opt_debounceDelay = None, opt_excludeSelectors = None, opt_onFormChanged = True\<rparr>"

definition tracked :: "node list \<Rightarrow> state" where
  "tracked children = wire (Element formElement children) withCallback (pageWith children)"

definition fieldX :: "string \<Rightarrow> node" where
  "fieldX v = Element (textInput 1 ''x'' v) []"

definition removal :: "node \<Rightarrow> action" where
  "removal n = MutationRecords [\<lparr>addedNodes = [], removedNodes = [n]\<rparr>]"

definition insertion :: "node \<Rightarrow> action" where
  "insertion n = MutationRecords [\<lparr>addedNodes = [n], removedNodes = []\<rparr>]"

definition fieldY :: node where
  "fieldY = Element (textInput 2 ''y'' ''new'') []"

definition typed :: "string \<Rightarrow> event" where
  "typed v = \<lparr>ev_id = 7, ev_target = textInput 1 ''x'' v\<rparr>"


section \<open>Properties\<close>

subsection \<open>Values and snapshots\<close>

lemma arrayAt_all_nth:
  "length a = length b \<Longrightarrow>
   list_all (\<lambda>(val, index). Some val = arrayAt b index) (zip a [0..<length a])
     = (\<forall>i<length a. a ! i = b ! i)"
  by (simp add: list_all_length arrayAt_def)

lemma valuesAreEqual_Sequence:
  "valuesAreEqual (Sequence a) (Sequence b) = (length a = length b \<and> (\<forall>i<length a. a ! i = b ! i))"
  using arrayAt_all_nth [of a b] by auto

lemma valuesAreEqual_Scalar: "valuesAreEqual (Scalar a) (Scalar b) = (a = b)"
  by simp

lemma valuesAreEqual_mixed:
  "\<not> valuesAreEqual (Scalar a) (Sequence b)" "\<not> valuesAreEqual (Sequence b) (Scalar a)"
  by simp_all

lemma valuesAreEqual_refl: "valuesAreEqual v v"
  by (cases v) (simp_all add: valuesAreEqual_Sequence del: valuesAreEqual.simps(1))

lemma snapshotsDiffer_same: "\<not> snapshotsDiffer d d"
  by (simp add: snapshotsDiffer_def valuesAreEqual_refl)

text \<open>
  C7. Two snapshots count as equal (the condition \<open>snapshotsDiffer\<close> is false) exactly
  when their values are both arrays of the same length with equal elements at every index
  or both strings that are equal, and their \<open>checked\<close> properties are identical
  (\<open>None\<close> is the absent property). The arrays a, b and b, a are not equal; a, b and a, b
  are equal.
\<close>

theorem snapshot_equality_rule:
  "(\<not> snapshotsDiffer p q) =
     (((\<exists>xs ys. s_value p = Sequence xs \<and> s_value q = Sequence ys \<and> length xs = length ys \<and>
                (\<forall>i<length xs. xs ! i = ys ! i))
       \<or> (\<exists>x y. s_value p = Scalar x \<and> s_value q = Scalar y \<and> x = y))
      \<and> s_checked p = s_checked q)
   \<and> \<not> valuesAreEqual (Sequence [''a'', ''b'']) (Sequence [''b'', ''a''])
   \<and> valuesAreEqual (Sequence [''a'', ''b'']) (Sequence [''a'', ''b''])"
proof -
  have general: "valuesAreEqual v w =
      ((\<exists>xs ys. v = Sequence xs \<and> w = Sequence ys \<and> length xs = length ys \<and>
                (\<forall>i<length xs. xs ! i = ys ! i))
       \<or> (\<exists>x y. v = Scalar x \<and> w = Scalar y \<and> x = y))" for v w
  proof (cases v)
    case (Scalar a)
    then show ?thesis by (cases w) simp_all
  next
    case (Sequence a)
    then show ?thesis
      by (cases w) (simp_all add: valuesAreEqual_Sequence del: valuesAreEqual.simps(1))
  qed
  have ex1: "\<not> valuesAreEqual (Sequence [''a'', ''b'']) (Sequence [''b'', ''a''])"
    by (simp add: arrayAt_def)
  have ex2: "valuesAreEqual (Sequence [''a'', ''b'']) (Sequence [''a'', ''b''])"
    by (rule valuesAreEqual_refl)
  show ?thesis
    unfolding snapshotsDiffer_def using general [of "s_value p" "s_value q"] ex1 ex2 by blast
qed

theorem snapshot_equality_rule_witness:
  "\<not> snapshotsDiffer \<lparr>s_field = 1, s_value = Sequence [''a'', ''b''], s_checked = None\<rparr>
       \<lparr>s_field = 2, s_value = Sequence [''a'', ''b''], s_checked = None\<rparr>
   \<and> snapshotsDiffer \<lparr>s_field = 1, s_value = Scalar ''on'', s_checked = Some True\<rparr>
       \<lparr>s_field = 1, s_value = Scalar ''on'', s_checked = Some False\<rparr>"
  using snapshot_equality_rule
      [of "\<lparr>s_field = 1, s_value = Sequence [''a'', ''b''], s_checked = None\<rparr>"
          "\<lparr>s_field = 2, s_value = Sequence [''a'', ''b''], s_checked = None\<rparr>"]
    snapshot_equality_rule
      [of "\<lparr>s_field = 1, s_value = Scalar ''on'', s_checked = Some True\<rparr>"
          "\<lparr>s_field = 1, s_value = Scalar ''on'', s_checked = Some False\<rparr>"]
  by (simp add: nth_Cons')

subsection \<open>The Map operations\<close>

lemma Map_get_set: "Map_get (Map_set k v m) k' = (if k' = k then Some v else Map_get m k')"
  by (induction m) (auto simp: Map_get_def)

lemma Map_get_delete: "Map_get (Map_delete k m) k' = (if k' = k then None else Map_get m k')"
  by (induction m) (auto simp: Map_get_def Map_delete_def)

lemma Map_has_keys: "Map_has m k = (k \<in> fst ` set m)"
  by (simp add: Map_has_def Map_get_def map_of_eq_None_iff)

lemma Map_get_None_keys: "(Map_get m k = None) = (k \<notin> fst ` set m)"
  by (simp add: Map_get_def map_of_eq_None_iff)

lemma map_fst_Map_set:
  "map fst (Map_set k v m) = (if k \<in> set (map fst m) then map fst m else map fst m @ [k])"
  by (induction m) force+

lemma keys_Map_set: "fst ` set (Map_set k v m) = insert k (fst ` set m)"
proof -
  have "set (map fst (Map_set k v m)) = insert k (set (map fst m))"
    unfolding map_fst_Map_set by auto
  then show ?thesis by simp
qed

lemma distinct_Map_set: "distinct (map fst m) \<Longrightarrow> distinct (map fst (Map_set k v m))"
  by (simp add: map_fst_Map_set)

lemma Map_set_new: "k \<notin> fst ` set m \<Longrightarrow> Map_set k v m = m @ [(k, v)]"
  by (induction m) auto

subsection \<open>The categories of getChanges\<close>

lemma classifyLive_removed: "removed (fold (classifyLive s) xs acc) = removed acc"
  by (induction xs arbitrary: acc) (auto simp: classifyLive_def split: option.splits)

lemma classifyLive_added:
  "c_id ` set (added (fold (classifyLive s) xs acc)) =
     c_id ` set (added acc) \<union>
     {k \<in> fst ` set xs. Map_get (originalState s) k = None \<and> Map_get (removedFields s) k = None}"
proof (induction xs arbitrary: acc)
  case Nil
  then show ?case by simp
next
  case (Cons x xs)
  obtain k d where x: "x = (k, d)" by (cases x)
  show ?case
    unfolding fold_Cons comp_apply Cons.IH
    by (auto simp: x classifyLive_def split: option.splits)
qed

lemma classifyLive_reAdded:
  "c_id ` set (reAdded (fold (classifyLive s) xs acc)) =
     c_id ` set (reAdded acc) \<union>
     {k \<in> fst ` set xs. Map_get (originalState s) k = None \<and> Map_get (removedFields s) k \<noteq> None}"
proof (induction xs arbitrary: acc)
  case Nil
  then show ?case by simp
next
  case (Cons x xs)
  obtain k d where x: "x = (k, d)" by (cases x)
  show ?case
    unfolding fold_Cons comp_apply Cons.IH
    by (auto simp: x classifyLive_def split: option.splits)
qed

lemma classifyLive_modified:
  "m_id ` set (modified (fold (classifyLive s) xs acc)) \<subseteq>
     m_id ` set (modified acc) \<union> {k \<in> fst ` set xs. Map_get (originalState s) k \<noteq> None}"
proof (induction xs arbitrary: acc)
  case Nil
  then show ?case by simp
next
  case (Cons x xs)
  obtain k d where x: "x = (k, d)" by (cases x)
  have "m_id ` set (modified (classifyLive s x acc)) \<subseteq>
          m_id ` set (modified acc) \<union> {k' \<in> {k}. Map_get (originalState s) k' \<noteq> None}"
    by (auto simp: x classifyLive_def split: option.splits)
  with Cons.IH [of "classifyLive s x acc"] show ?case
    unfolding fold_Cons comp_apply by (auto simp: x)
qed

lemma classifyOriginal_others:
  "added (fold (classifyOriginal s) xs acc) = added acc"
  "modified (fold (classifyOriginal s) xs acc) = modified acc"
  "reAdded (fold (classifyOriginal s) xs acc) = reAdded acc"
  by (induction xs arbitrary: acc) (auto simp: classifyOriginal_def)

lemma classifyOriginal_removed:
  "c_id ` set (removed (fold (classifyOriginal s) xs acc)) =
     c_id ` set (removed acc) \<union> {k \<in> fst ` set xs. \<not> Map_has (currentState s) k}"
proof (induction xs arbitrary: acc)
  case Nil
  then show ?case by simp
next
  case (Cons x xs)
  obtain k d where x: "x = (k, d)" by (cases x)
  show ?case
    unfolding fold_Cons comp_apply Cons.IH
    by (auto simp: x classifyOriginal_def)
qed

lemma getChanges_ids:
  "c_id ` set (removed (getChanges s)) =
     {k \<in> fst ` set (originalState s). k \<notin> fst ` set (currentState s)}"
  "c_id ` set (added (getChanges s)) =
     {k \<in> fst ` set (currentState s). k \<notin> fst ` set (originalState s) \<and> k \<notin> fst ` set (removedFields s)}"
  "c_id ` set (reAdded (getChanges s)) =
     {k \<in> fst ` set (currentState s). k \<notin> fst ` set (originalState s) \<and> k \<in> fst ` set (removedFields s)}"
  "m_id ` set (modified (getChanges s)) \<subseteq>
     {k \<in> fst ` set (currentState s). k \<in> fst ` set (originalState s)}"
  unfolding getChanges_def classifyOriginal_removed classifyOriginal_others
    classifyLive_removed classifyLive_added classifyLive_reAdded
  using classifyLive_modified [of s "currentState s" emptyChanges]
  by (auto simp: emptyChanges_def Map_has_keys Map_get_None_keys)

text \<open>
  C8. In every tracker state, every id that is in originalState and not in currentState
  is the id of a record in the \<open>removed\<close> list of \<^verbatim>\<open>getChanges()\<close>, and no id occurs both
  in \<open>removed\<close> and in one of \<open>added\<close>, \<open>modified\<close>, \<open>reAdded\<close>; the ids of
  \<open>added\<close>, \<open>modified\<close> and \<open>reAdded\<close> are pairwise disjoint as well, so an id is in
  at most one category.
\<close>

theorem removed_symmetry:
  "(\<forall>fid. Map_has (originalState s) fid \<and> \<not> Map_has (currentState s) fid \<longrightarrow>
          fid \<in> c_id ` set (removed (getChanges s)))
   \<and> c_id ` set (removed (getChanges s)) \<inter>
       (c_id ` set (added (getChanges s)) \<union> m_id ` set (modified (getChanges s)) \<union>
        c_id ` set (reAdded (getChanges s))) = {}
   \<and> c_id ` set (added (getChanges s)) \<inter> m_id ` set (modified (getChanges s)) = {}
   \<and> c_id ` set (added (getChanges s)) \<inter> c_id ` set (reAdded (getChanges s)) = {}
   \<and> m_id ` set (modified (getChanges s)) \<inter> c_id ` set (reAdded (getChanges s)) = {}"
proof -
  note ids = getChanges_ids [of s]
  have a: "\<forall>fid. Map_has (originalState s) fid \<and> \<not> Map_has (currentState s) fid \<longrightarrow>
          fid \<in> c_id ` set (removed (getChanges s))"
    unfolding ids(1) Map_has_keys by blast
  have b: "c_id ` set (removed (getChanges s)) \<inter>
       (c_id ` set (added (getChanges s)) \<union> m_id ` set (modified (getChanges s)) \<union>
        c_id ` set (reAdded (getChanges s))) = {}"
    unfolding ids(1,2,3) using ids(4) by blast
  have c: "c_id ` set (added (getChanges s)) \<inter> m_id ` set (modified (getChanges s)) = {}"
    unfolding ids(2) using ids(4) by blast
  have d: "c_id ` set (added (getChanges s)) \<inter> c_id ` set (reAdded (getChanges s)) = {}"
    unfolding ids(2,3) by blast
  have e: "m_id ` set (modified (getChanges s)) \<inter> c_id ` set (reAdded (getChanges s)) = {}"
    unfolding ids(3) using ids(4) by blast
  from a b c d e show ?thesis by blast
qed

theorem removed_symmetry_witness:
  "Map_has (originalState (run [removal (fieldX ''A'')] (tracked [fieldX ''A'']))) ''x''
   \<and> \<not> Map_has (currentState (run [removal (fieldX ''A'')] (tracked [fieldX ''A'']))) ''x''
   \<and> ''x'' \<in> c_id ` set (removed (getChanges (run [removal (fieldX ''A'')] (tracked [fieldX ''A'']))))"
proof -
  have a: "Map_has (originalState (run [removal (fieldX ''A'')] (tracked [fieldX ''A'']))) ''x''"
    by code_simp
  have b: "\<not> Map_has (currentState (run [removal (fieldX ''A'')] (tracked [fieldX ''A'']))) ''x''"
    by code_simp
  have c: "''x'' \<in> c_id ` set (removed (getChanges (run [removal (fieldX ''A'')] (tracked [fieldX ''A'']))))"
    by (rule removed_symmetry [of "run [removal (fieldX ''A'')] (tracked [fieldX ''A''])",
          THEN conjunct1, THEN spec, THEN mp, OF conjI, OF a b])
  show ?thesis by (rule conjI [OF a conjI [OF b c]])
qed

subsection \<open>What each method leaves alone\<close>

lemma fold_keeps: "(\<And>x t. g (f x t) = g t) \<Longrightarrow> g (fold f xs s) = g s"
  by (induction xs arbitrary: s) simp_all

lemma fold_invariant: "(\<And>x t. I t \<Longrightarrow> I (f x t)) \<Longrightarrow> I s \<Longrightarrow> I (fold f xs s)"
  by (induction xs arbitrary: s) simp_all

lemma debounced_frame:
  "originalState (debouncedCheckForChanges s) = originalState s"
  "currentState (debouncedCheckForChanges s) = currentState s"
  "removedFields (debouncedCheckForChanges s) = removedFields s"
  "DEBOUNCE_DELAY (debouncedCheckForChanges s) = DEBOUNCE_DELAY s"
  "now (debouncedCheckForChanges s) = now s"
  "lastEvent (debouncedCheckForChanges s) = lastEvent s"
  "onFormChanged (debouncedCheckForChanges s) = onFormChanged s"
  "calls (debouncedCheckForChanges s) = calls s"
  by (simp_all add: debouncedCheckForChanges_def clearTimeout_def setTimeout_def)

lemma getOrSetFieldID_frame:
  "originalState (snd (getOrSetFieldID f s)) = originalState s"
  "currentState (snd (getOrSetFieldID f s)) = currentState s"
  "removedFields (snd (getOrSetFieldID f s)) = removedFields s"
  "DEBOUNCE_DELAY (snd (getOrSetFieldID f s)) = DEBOUNCE_DELAY s"
  "now (snd (getOrSetFieldID f s)) = now s"
  "timers (snd (getOrSetFieldID f s)) = timers s"
  "timeoutId (snd (getOrSetFieldID f s)) = timeoutId s"
  "nextTimer (snd (getOrSetFieldID f s)) = nextTimer s"
  "lastEvent (snd (getOrSetFieldID f s)) = lastEvent s"
  "onFormChanged (snd (getOrSetFieldID f s)) = onFormChanged s"
  "calls (snd (getOrSetFieldID f s)) = calls s"
  by (simp_all add: getOrSetFieldID_def Let_def)

lemma updateCurrentState_frame:
  "originalState (updateCurrentState f s) = originalState s"
  "removedFields (updateCurrentState f s) = removedFields s"
  "DEBOUNCE_DELAY (updateCurrentState f s) = DEBOUNCE_DELAY s"
  "now (updateCurrentState f s) = now s"
  "lastEvent (updateCurrentState f s) = lastEvent s"
  "onFormChanged (updateCurrentState f s) = onFormChanged s"
  "calls (updateCurrentState f s) = calls s"
  by (simp_all add: updateCurrentState_def split_beta debounced_frame getOrSetFieldID_frame)

lemma checkForChanges_frame:
  "originalState (snd (checkForChanges s)) = originalState s"
  "currentState (snd (checkForChanges s)) = currentState s"
  "removedFields (snd (checkForChanges s)) = removedFields s"
  "DEBOUNCE_DELAY (snd (checkForChanges s)) = DEBOUNCE_DELAY s"
  "now (snd (checkForChanges s)) = now s"
  "timers (snd (checkForChanges s)) = timers s"
  "timeoutId (snd (checkForChanges s)) = timeoutId s"
  "lastEvent (snd (checkForChanges s)) = lastEvent s"
  by (simp_all add: checkForChanges_def Let_def)

lemma elapse_frame:
  "originalState (elapse dt s) = originalState s"
  "removedFields (elapse dt s) = removedFields s"
  "DEBOUNCE_DELAY (elapse dt s) = DEBOUNCE_DELAY s"
  "lastEvent (elapse dt s) = lastEvent s"
  by (simp_all add: elapse_def Let_def fold_keeps checkForChanges_frame)

lemma resetState_fold_frame:
  "originalState (fold (\<lambda>(fid, data) t. t\<lparr>currentState := Map_set fid data (currentState t)\<rparr>) xs s)
     = originalState s"
  "removedFields (fold (\<lambda>(fid, data) t. t\<lparr>currentState := Map_set fid data (currentState t)\<rparr>) xs s)
     = removedFields s"
  "DEBOUNCE_DELAY (fold (\<lambda>(fid, data) t. t\<lparr>currentState := Map_set fid data (currentState t)\<rparr>) xs s)
     = DEBOUNCE_DELAY s"
  "currentState (fold (\<lambda>(fid, data) t. t\<lparr>currentState := Map_set fid data (currentState t)\<rparr>) xs s)
     = fold (\<lambda>(fid, data). Map_set fid data) xs (currentState s)"
  by (induction xs arbitrary: s) (simp_all add: split_beta)

lemma resetState_frame:
  "originalState (resetState s) = originalState s"
  "removedFields (resetState s) = removedFields s"
  "DEBOUNCE_DELAY (resetState s) = DEBOUNCE_DELAY s"
  "currentState (resetState s) = fold (\<lambda>(fid, data). Map_set fid data) (originalState s) []"
  by (simp_all add: resetState_def Let_def debounced_frame resetState_fold_frame)

lemma addedField_frame:
  "originalState (addedField f s) = originalState s"
  "removedFields (addedField f s) = removedFields s"
  "DEBOUNCE_DELAY (addedField f s) = DEBOUNCE_DELAY s"
  "lastEvent (addedField f s) = lastEvent s"
  by (simp_all add: addedField_def updateCurrentState_frame)

lemma removedField_frame:
  "originalState (removedField f s) = originalState s"
  "DEBOUNCE_DELAY (removedField f s) = DEBOUNCE_DELAY s"
  "lastEvent (removedField f s) = lastEvent s"
  by (simp_all add: removedField_def Let_def debounced_frame split: option.splits)

lemma onMutation_frame:
  "originalState (onMutation m s) = originalState s"
  "DEBOUNCE_DELAY (onMutation m s) = DEBOUNCE_DELAY s"
  "lastEvent (onMutation m s) = lastEvent s"
  by (simp_all add: onMutation_def Let_def fold_keeps addedField_frame removedField_frame)

lemma observerCallback_frame:
  "originalState (observerCallback ms s) = originalState s"
  "DEBOUNCE_DELAY (observerCallback ms s) = DEBOUNCE_DELAY s"
  "lastEvent (observerCallback ms s) = lastEvent s"
  by (simp_all add: observerCallback_def fold_keeps onMutation_frame)

lemma onChange_frame:
  "originalState (snd (onChange e form s)) = originalState s"
  "removedFields (snd (onChange e form s)) = removedFields s"
  "DEBOUNCE_DELAY (snd (onChange e form s)) = DEBOUNCE_DELAY s"
  by (simp_all add: onChange_def Let_def fold_keeps updateCurrentState_frame split: sum.splits)

lemma onInput_frame:
  "originalState (onInput e s) = originalState s"
  "removedFields (onInput e s) = removedFields s"
  "DEBOUNCE_DELAY (onInput e s) = DEBOUNCE_DELAY s"
  by (simp_all add: onInput_def Let_def updateCurrentState_frame)

lemma step_frame:
  "originalState (step a s) = originalState s"
  "DEBOUNCE_DELAY (step a s) = DEBOUNCE_DELAY s"
  by (cases a; simp add: onChange_frame onInput_frame observerCallback_frame elapse_frame
        checkForChanges_frame resetState_frame)+

lemma run_frame:
  "originalState (run acts s) = originalState s"
  "DEBOUNCE_DELAY (run acts s) = DEBOUNCE_DELAY s"
  by (simp_all add: run_def fold_keeps step_frame)

subsection \<open>Reset and check\<close>

lemma fold_Map_set_distinct:
  "distinct (map fst (acc @ xs)) \<Longrightarrow> fold (\<lambda>(fid, data). Map_set fid data) xs acc = acc @ xs"
proof (induction xs arbitrary: acc)
  case Nil
  then show ?case by simp
next
  case (Cons x xs)
  obtain k d where x: "x = (k, d)" by (cases x)
  from Cons.prems have new: "k \<notin> fst ` set acc" by (auto simp: x)
  from Cons.prems have "distinct (map fst ((acc @ [(k, d)]) @ xs))" by (simp add: x)
  from Cons.IH [OF this] show ?case by (simp add: x Map_set_new [OF new])
qed

lemma Map_get_distinct:
  "distinct (map fst m) \<Longrightarrow> (k, d) \<in> set m \<Longrightarrow> Map_get m k = Some d"
  by (simp add: Map_get_def)

lemma liveLoop_same:
  "(\<And>k d. (k, d) \<in> set xs \<Longrightarrow> Map_get (originalState s) k = Some d) \<Longrightarrow> \<not> liveLoop s xs"
proof (induction xs)
  case Nil
  then show ?case by simp
next
  case (Cons x xs)
  obtain k d where x: "x = (k, d)" by (cases x)
  have "Map_get (originalState s) k = Some d" using Cons.prems [of k d] by (simp add: x)
  moreover have "\<not> liveLoop s xs" using Cons.IH Cons.prems by simp
  ultimately show ?case by (simp add: x snapshotsDiffer_same)
qed

lemma originalLoop_present:
  "(\<And>k. k \<in> set ks \<Longrightarrow> Map_has (currentState s) k) \<Longrightarrow> \<not> originalLoop s ks"
  by (induction ks) simp_all

lemma hasChanges_baseline_is_live:
  assumes "distinct (map fst (originalState s))" "currentState s = originalState s"
  shows "\<not> hasChanges s"
proof -
  have a: "\<not> liveLoop s (currentState s)"
    by (rule liveLoop_same) (simp add: assms Map_get_distinct)
  have b: "\<not> originalLoop s (Map_keys (originalState s))"
    by (rule originalLoop_present) (simp add: Map_keys_def Map_has_keys assms(2))
  from a b show ?thesis by (simp add: hasChanges_def)
qed

lemma initializeState_distinct:
  "distinct (map fst (originalState s)) \<Longrightarrow> distinct (map fst (originalState (initializeState form s)))"
  unfolding initializeState_def
  by (rule fold_invariant [where I = "\<lambda>t. distinct (map fst (originalState t))"])
     (simp_all add: split_beta getOrSetFieldID_frame distinct_Map_set)

lemma wire_distinct: "distinct (map fst (originalState (wire form opts h)))"
proof -
  have "distinct (map fst (originalState (freshState opts h)))"
    by (simp add: freshState_def)
  from initializeState_distinct [OF this, of form] show ?thesis
    by (simp add: wire_def setupMutationObserver_def setupEventListeners_def)
qed

lemma reset_then_no_changes:
  assumes "distinct (map fst (originalState s))"
  shows "\<not> hasChanges (resetState s)"
proof (rule hasChanges_baseline_is_live)
  show "distinct (map fst (originalState (resetState s)))"
    by (simp add: resetState_frame assms)
  have "fold (\<lambda>(fid, data). Map_set fid data) (originalState s) [] = [] @ originalState s"
    by (rule fold_Map_set_distinct) (simp add: assms)
  then show "currentState (resetState s) = originalState (resetState s)"
    by (simp add: resetState_frame)
qed

text \<open>
  C6. In every state that a constructed tracker can reach (any list of events, mutation
  records, elapsed time and public calls after the constructor has wired the form),
  \<^verbatim>\<open>resetState()\<close> followed directly by \<^verbatim>\<open>checkForChanges()\<close> returns false.
\<close>

theorem reset_round_trip:
  "fst (checkForChanges (resetState (run acts (wire form opts h)))) = False"
proof -
  have "distinct (map fst (originalState (run acts (wire form opts h))))"
    by (simp add: run_frame wire_distinct)
  from reset_then_no_changes [OF this] show ?thesis
    by (simp add: checkForChanges_def Let_def)
qed

theorem reset_round_trip_witness:
  "fst (checkForChanges (resetState (run [removal (fieldX ''A''), Elapse 300]
     (wire (Element formElement [fieldX ''A'']) withCallback (pageWith [fieldX ''A'']))))) = False"
  by (rule reset_round_trip)

subsection \<open>Structural removal\<close>

text \<open>
  C10. Handling one removed field: when the resolved id is empty or is not a key of
  currentState, removedFields and currentState stay as they are, so removedFields changes
  only for a non-empty id present in currentState; for a field that is not excluded and
  whose non-empty id has the snapshot d in currentState, d is stored in removedFields
  under that id and the id is deleted from currentState; and every entry of removedFields
  afterwards was there before or is the snapshot currentState held under the removed
  field's id.
\<close>

theorem removal_moves_live_entry:
  "(getFieldId s f = [] \<or> \<not> Map_has (currentState s) (getFieldId s f) \<longrightarrow>
      removedFields (removedField f s) = removedFields s \<and>
      currentState (removedField f s) = currentState s)
   \<and> (removedFields (removedField f s) \<noteq> removedFields s \<longrightarrow>
        getFieldId s f \<noteq> [] \<and> Map_has (currentState s) (getFieldId s f))
   \<and> (\<forall>d. \<not> isExcluded s f \<and> getFieldId s f \<noteq> [] \<and>
            Map_get (currentState s) (getFieldId s f) = Some d \<longrightarrow>
        removedFields (removedField f s) = Map_set (getFieldId s f) d (removedFields s) \<and>
        currentState (removedField f s) = Map_delete (getFieldId s f) (currentState s))
   \<and> (\<forall>k d. Map_get (removedFields (removedField f s)) k = Some d \<longrightarrow>
        Map_get (removedFields s) k = Some d \<or>
        (k = getFieldId s f \<and> k \<noteq> [] \<and> Map_get (currentState s) k = Some d))"
proof -
  have a: "getFieldId s f = [] \<or> \<not> Map_has (currentState s) (getFieldId s f) \<longrightarrow>
      removedFields (removedField f s) = removedFields s \<and>
      currentState (removedField f s) = currentState s"
    by (auto simp: removedField_def Let_def)
  then have b: "removedFields (removedField f s) \<noteq> removedFields s \<longrightarrow>
        getFieldId s f \<noteq> [] \<and> Map_has (currentState s) (getFieldId s f)"
    by blast
  have c: "\<forall>d. \<not> isExcluded s f \<and> getFieldId s f \<noteq> [] \<and>
            Map_get (currentState s) (getFieldId s f) = Some d \<longrightarrow>
        removedFields (removedField f s) = Map_set (getFieldId s f) d (removedFields s) \<and>
        currentState (removedField f s) = Map_delete (getFieldId s f) (currentState s)"
    by (simp add: removedField_def Let_def Map_has_def debounced_frame)
  have d: "\<forall>k d. Map_get (removedFields (removedField f s)) k = Some d \<longrightarrow>
        Map_get (removedFields s) k = Some d \<or>
        (k = getFieldId s f \<and> k \<noteq> [] \<and> Map_get (currentState s) k = Some d)"
    by (auto simp: removedField_def Let_def debounced_frame Map_get_set
          split: option.splits if_splits)
  from a b c d show ?thesis by blast
qed

theorem removal_moves_live_entry_witness:
  "\<not> isExcluded (tracked [fieldX ''A'']) (textInput 1 ''x'' ''A'')
   \<and> getFieldId (tracked [fieldX ''A'']) (textInput 1 ''x'' ''A'') \<noteq> []
   \<and> Map_get (currentState (tracked [fieldX ''A'']))
         (getFieldId (tracked [fieldX ''A'']) (textInput 1 ''x'' ''A''))
       = Some \<lparr>s_field = 1, s_value = Scalar ''A'', s_checked = None\<rparr>
   \<and> removedFields (removedField (textInput 1 ''x'' ''A'') (tracked [fieldX ''A''])) =
         Map_set (getFieldId (tracked [fieldX ''A'']) (textInput 1 ''x'' ''A''))
           \<lparr>s_field = 1, s_value = Scalar ''A'', s_checked = None\<rparr>
           (removedFields (tracked [fieldX ''A'']))
   \<and> currentState (removedField (textInput 1 ''x'' ''A'') (tracked [fieldX ''A''])) =
         Map_delete (getFieldId (tracked [fieldX ''A'']) (textInput 1 ''x'' ''A''))
           (currentState (tracked [fieldX ''A'']))"
proof -
  have a: "\<not> isExcluded (tracked [fieldX ''A'']) (textInput 1 ''x'' ''A'')"
    by code_simp
  have b: "getFieldId (tracked [fieldX ''A'']) (textInput 1 ''x'' ''A'') \<noteq> []"
    by code_simp
  have c: "Map_get (currentState (tracked [fieldX ''A'']))
         (getFieldId (tracked [fieldX ''A'']) (textInput 1 ''x'' ''A''))
       = Some \<lparr>s_field = 1, s_value = Scalar ''A'', s_checked = None\<rparr>"
    by code_simp
  note moved = removal_moves_live_entry [of "tracked [fieldX ''A'']" "textInput 1 ''x'' ''A''",
      THEN conjunct2, THEN conjunct2, THEN conjunct1, THEN spec, THEN mp,
      OF conjI [OF a conjI [OF b c]]]
  show ?thesis by (rule conjI [OF a conjI [OF b conjI [OF c moved]]])
qed

subsection \<open>Debouncing\<close>

lemma onePending_cases:
  "onePending s = (timers s = [] \<or> (\<exists>tid due. timers s = [(tid, due)] \<and> timeoutId s = Some tid))"
  by (auto simp: onePending_def split: list.splits)

lemma debounced_timers:
  assumes "onePending s"
  shows "timers (debouncedCheckForChanges s) = [(nextTimer s, now s + DEBOUNCE_DELAY s)]"
    and "timeoutId (debouncedCheckForChanges s) = Some (nextTimer s)"
  using assms
  by (auto simp: onePending_cases debouncedCheckForChanges_def clearTimeout_def setTimeout_def)

lemma onePending_debounced: "onePending s \<Longrightarrow> onePending (debouncedCheckForChanges s)"
  by (simp add: onePending_def debounced_timers)

lemma onePending_same_timers:
  "timers t = timers s \<Longrightarrow> timeoutId t = timeoutId s \<Longrightarrow> onePending s \<Longrightarrow> onePending t"
  by (simp add: onePending_cases)

lemma updateCurrentState_timers:
  assumes "onePending s"
  shows "timers (updateCurrentState f s) = [(nextTimer s, now s + DEBOUNCE_DELAY s)]"
    and "timeoutId (updateCurrentState f s) = Some (nextTimer s)"
proof -
  let ?t = "(snd (getOrSetFieldID f s))\<lparr>currentState :=
      Map_set (fst (getOrSetFieldID f s)) (formatFieldState f) (currentState (snd (getOrSetFieldID f s)))\<rparr>"
  have p: "onePending ?t"
    by (rule onePending_same_timers [OF _ _ assms]) (simp_all add: getOrSetFieldID_frame)
  have u: "updateCurrentState f s = debouncedCheckForChanges ?t"
    by (simp add: updateCurrentState_def split_beta Let_def)
  show "timers (updateCurrentState f s) = [(nextTimer s, now s + DEBOUNCE_DELAY s)]"
    unfolding u debounced_timers(1) [OF p] by (simp add: getOrSetFieldID_frame)
  show "timeoutId (updateCurrentState f s) = Some (nextTimer s)"
    unfolding u debounced_timers(2) [OF p] by (simp add: getOrSetFieldID_frame)
qed

lemma onePending_updateCurrentState: "onePending s \<Longrightarrow> onePending (updateCurrentState f s)"
  by (simp add: onePending_def updateCurrentState_timers)






text \<open>The invariant holds in every state a constructed tracker can reach.\<close>

lemma timers_frame:
  "timers (fold (\<lambda>(fid, data) t. t\<lparr>currentState := Map_set fid data (currentState t)\<rparr>) xs s) = timers s"
  "timeoutId (fold (\<lambda>(fid, data) t. t\<lparr>currentState := Map_set fid data (currentState t)\<rparr>) xs s) = timeoutId s"
  by (induction xs arbitrary: s) (simp_all add: split_beta)

lemma onePending_checkForChanges: "onePending s \<Longrightarrow> onePending (snd (checkForChanges s))"
  by (rule onePending_same_timers) (simp_all add: checkForChanges_frame)

lemma onePending_elapse:
  assumes "onePending s"
  shows "onePending (elapse dt s)"
proof -
  let ?s1 = "s\<lparr>now := now s + dt, timers := filter (\<lambda>(i, due). \<not> due \<le> now s + dt) (timers s)\<rparr>"
  have "onePending ?s1"
    using assms by (auto simp: onePending_def split: list.splits if_splits)
  then have "onePending (fold (\<lambda>timer u. snd (checkForChanges u)) (dueTimers (now s + dt) s) ?s1)"
    by (rule fold_invariant [where I = onePending, rotated]) (rule onePending_checkForChanges)
  then show ?thesis by (simp add: elapse_def Let_def)
qed

lemma onePending_resetState: "onePending s \<Longrightarrow> onePending (resetState s)"
  unfolding resetState_def Let_def
  by (rule onePending_debounced, rule onePending_same_timers [where s = s])
     (simp_all add: timers_frame)

lemma onePending_addedField: "onePending s \<Longrightarrow> onePending (addedField f s)"
  by (simp add: addedField_def onePending_updateCurrentState)

lemma onePending_removedField:
  assumes "onePending s"
  shows "onePending (removedField f s)"
proof -
  have "onePending (debouncedCheckForChanges
          (s\<lparr>removedFields := Map_set k d (removedFields s),
             currentState := Map_delete k (currentState s)\<rparr>))" for k d
    by (rule onePending_debounced, rule onePending_same_timers [OF _ _ assms]) simp_all
  with assms show ?thesis
    by (simp add: removedField_def Let_def split: option.splits)
qed

lemma onePending_onMutation: "onePending s \<Longrightarrow> onePending (onMutation m s)"
  unfolding onMutation_def Let_def
  by (intro fold_invariant [where I = onePending] onePending_addedField onePending_removedField)

lemma onePending_observerCallback:
  assumes "onePending s"
  shows "onePending (observerCallback ms s)"
  unfolding observerCallback_def using assms
  by (rule fold_invariant [where I = onePending, rotated]) (rule onePending_onMutation)

lemma onePending_lastEvent: "onePending s \<Longrightarrow> onePending (s\<lparr>lastEvent := e\<rparr>)"
  by (rule onePending_same_timers [where s = s]) simp_all

lemma onePending_onChange: "onePending s \<Longrightarrow> onePending (snd (onChange e form s))"
  unfolding onChange_def Let_def
  by (auto intro!: fold_invariant [where I = onePending] onePending_updateCurrentState
        onePending_lastEvent split: sum.splits)

lemma onePending_onInput: "onePending s \<Longrightarrow> onePending (onInput e s)"
  unfolding onInput_def Let_def
  by (auto intro!: onePending_updateCurrentState onePending_lastEvent)

lemma onePending_step: "onePending s \<Longrightarrow> onePending (step a s)"
  by (cases a)
     (simp_all add: onePending_onChange onePending_onInput onePending_observerCallback
        onePending_elapse onePending_checkForChanges onePending_resetState)

lemma initializeState_timers: "timers (initializeState form s) = timers s"
  unfolding initializeState_def
  by (rule fold_keeps) (simp add: split_beta getOrSetFieldID_frame)

lemma onePending_wire: "onePending (wire form opts h)"
proof -
  have "timers (wire form opts h) = []"
    by (simp add: wire_def setupMutationObserver_def setupEventListeners_def
          initializeState_timers freshState_def)
  then show ?thesis by (simp add: onePending_def)
qed

lemma onePending_reachable: "onePending (run acts (wire form opts h))"
  unfolding run_def
  by (rule fold_invariant [where I = onePending, OF onePending_step onePending_wire])



section \<open>Scenarios\<close>

text \<open>
  C1. \<^verbatim>\<open>resetState()\<close> is meant to make the current state the new baseline. The code
  never assigns originalState (and leaves removedFields alone). On a tracker whose field
  x was captured with value A and then typed to B it does the opposite of the intent:
  originalState still holds A afterwards, and currentState has been overwritten with the
  baseline value A.
\<close>

theorem resetState_restores_baseline:
  "originalState (resetState s) = originalState s
   \<and> removedFields (resetState s) = removedFields s
   \<and> currentState (run [InputEvent (typed ''B'')] (tracked [fieldX ''A''])) =
     [(''x'', \<lparr>s_field = 1, s_value = Scalar ''B'', s_checked = None\<rparr>)]
   \<and> originalState (resetState (run [InputEvent (typed ''B'')] (tracked [fieldX ''A'']))) =
     [(''x'', \<lparr>s_field = 1, s_value = Scalar ''A'', s_checked = None\<rparr>)]
   \<and> currentState (resetState (run [InputEvent (typed ''B'')] (tracked [fieldX ''A'']))) =
     [(''x'', \<lparr>s_field = 1, s_value = Scalar ''A'', s_checked = None\<rparr>)]"
proof -
  have concrete:
    "currentState (run [InputEvent (typed ''B'')] (tracked [fieldX ''A''])) =
       [(''x'', \<lparr>s_field = 1, s_value = Scalar ''B'', s_checked = None\<rparr>)]
     \<and> originalState (resetState (run [InputEvent (typed ''B'')] (tracked [fieldX ''A'']))) =
       [(''x'', \<lparr>s_field = 1, s_value = Scalar ''A'', s_checked = None\<rparr>)]
     \<and> currentState (resetState (run [InputEvent (typed ''B'')] (tracked [fieldX ''A'']))) =
       [(''x'', \<lparr>s_field = 1, s_value = Scalar ''A'', s_checked = None\<rparr>)]"
    by code_simp
  show ?thesis
    by (rule conjI [OF resetState_frame(1) conjI [OF resetState_frame(2) concrete]])
qed

text \<open>
  C3. A field that is not in the baseline is inserted with value A, removed, and inserted
  again with value A. Its id is then in currentState and removedFields and not in
  originalState, and the two snapshots are equal. \<^verbatim>\<open>checkForChanges()\<close> compares them and
  reports no change, but \<^verbatim>\<open>getChanges()\<close> does not compare and lists the field in
  \<open>reAdded\<close>.
\<close>

theorem readded_unchanged_still_listed:
  "Map_has (currentState (run [insertion (fieldX ''A''), removal (fieldX ''A''), insertion (fieldX ''A'')] (tracked []))) ''x''
   \<and> Map_has (removedFields (run [insertion (fieldX ''A''), removal (fieldX ''A''), insertion (fieldX ''A'')] (tracked []))) ''x''
   \<and> \<not> Map_has (originalState (run [insertion (fieldX ''A''), removal (fieldX ''A''), insertion (fieldX ''A'')] (tracked []))) ''x''
   \<and> fst (checkForChanges (run [insertion (fieldX ''A''), removal (fieldX ''A''), insertion (fieldX ''A'')] (tracked []))) = False
   \<and> reAdded (getChanges (run [insertion (fieldX ''A''), removal (fieldX ''A''), insertion (fieldX ''A'')] (tracked []))) =
       [\<lparr>c_id = ''x'', c_field = 1, c_value = Scalar ''A'', c_checked = None,
         previousValue = Scalar ''A'', previousChecked = None\<rparr>]"
  by code_simp

text \<open>
  C5. The observer callback leaves \<open>lastEvent\<close> as it was. The user types into field x
  (event 7) and the debounced check runs; then a field y is inserted under the form and
  the debounced check runs again: the callback of the second check, fired for the
  structural insertion, is handed event 7 again rather than no event.
\<close>

theorem insertion_keeps_stale_event:
  "lastEvent (step (MutationRecords ms) s) = lastEvent s
   \<and> lastEvent (run [InputEvent (typed ''B''), Elapse 300] (tracked [fieldX ''A''])) \<noteq> None
   \<and> map (\<lambda>(h, c, ev). map_option ev_id ev)
       (calls (run [InputEvent (typed ''B''), Elapse 300, insertion fieldY, Elapse 300] (tracked [fieldX ''A''])))
     = [Some 7, Some 7]"
proof -
  have general: "lastEvent (step (MutationRecords ms) s) = lastEvent s"
    by (simp add: observerCallback_frame)
  have concrete:
    "lastEvent (run [InputEvent (typed ''B''), Elapse 300] (tracked [fieldX ''A''])) \<noteq> None
     \<and> map (\<lambda>(h, c, ev). map_option ev_id ev)
         (calls (run [InputEvent (typed ''B''), Elapse 300, insertion fieldY, Elapse 300] (tracked [fieldX ''A''])))
       = [Some 7, Some 7]"
    by code_simp
  show ?thesis by (rule conjI [OF general concrete])
qed

text \<open>
  C2, as stated, fails: for a field x that is in the baseline with value A, removed, and
  inserted again with value B, the \<open>reAdded\<close> list is empty.
\<close>

theorem readded_scenario_counterexample:
  "reAdded (getChanges (run [removal (fieldX ''A''), insertion (fieldX ''B'')] (tracked [fieldX ''A'']))) = []"
  by code_simp

text \<open>
  C2, amended. The text field x is in the baseline with value A. After it is removed,
  \<open>removed\<close> holds the record for x with value A. After an element with the same id and
  value B is inserted, \<open>modified\<close> holds the record for x with original value A and
  current value B and \<^verbatim>\<open>checkForChanges()\<close> returns true. If the inserted element has
  value A instead, \<^verbatim>\<open>checkForChanges()\<close> returns false and \<open>reAdded\<close> has no entry.
\<close>

theorem readded_scenario:
  "removed (getChanges (run [removal (fieldX ''A'')] (tracked [fieldX ''A'']))) =
     [\<lparr>c_id = ''x'', c_field = 1, c_value = Scalar ''A'', c_checked = None\<rparr>]
   \<and> modified (getChanges (run [removal (fieldX ''A''), insertion (fieldX ''B'')] (tracked [fieldX ''A'']))) =
     [\<lparr>m_id = ''x'', original = \<lparr>s_field = 1, s_value = Scalar ''A'', s_checked = None\<rparr>,
       current = \<lparr>s_field = 1, s_value = Scalar ''B'', s_checked = None\<rparr>\<rparr>]
   \<and> fst (checkForChanges (run [removal (fieldX ''A''), insertion (fieldX ''B'')] (tracked [fieldX ''A'']))) = True
   \<and> fst (checkForChanges (run [removal (fieldX ''A''), insertion (fieldX ''A'')] (tracked [fieldX ''A'']))) = False
   \<and> reAdded (getChanges (run [removal (fieldX ''A''), insertion (fieldX ''A'')] (tracked [fieldX ''A'']))) = []"
  by code_simp

section \<open>Construction on a missing form\<close>

lemma constructor_invalid_selector:
  "doc_querySelector h sel = Inl err \<Longrightarrow> constructor (Selector sel) opts h = Inl err"
  by (simp add: constructor_def resolveForm_def)

text \<open>
  C4, as stated, fails: on the instance left by a constructor whose selector matched
  nothing, \<^verbatim>\<open>checkForChanges()\<close> raises a TypeError.
\<close>

theorem inert_methods_counterexample:
  "public_checkForChanges
     (fst (projr (constructor (Selector ''#missing'') withCallback (pageWith [])))) = Inl TypeError"
  by (simp add: constructor_def resolveForm_def pageWith_def)

text \<open>
  C4, amended. If resolving the target returns null (a selector string that is valid and
  matches nothing, or a null reference), the constructor prints Form not found, does not
  throw, and leaves an instance with nothing wired: events, mutation records and elapsing
  time do not reach it. The three public methods are not guarded: each raises a TypeError
  on such an instance. A string that is not a valid selector is another case: the lookup
  raises a SyntaxError out of the constructor (\<open>constructor_invalid_selector\<close>).
\<close>

theorem unresolved_target:
  assumes "resolveForm h t = Inr None"
  shows "constructor t opts h = Inr (Inert, h\<lparr>h_console := h_console h @ [''Form not found'']\<rparr>)
       \<and> deliver (ChangeEvent e form) (fst (projr (constructor t opts h))) = Inr Inert
       \<and> deliver (InputEvent e) (fst (projr (constructor t opts h))) = Inr Inert
       \<and> deliver (MutationRecords ms) (fst (projr (constructor t opts h))) = Inr Inert
       \<and> deliver (Elapse dt) (fst (projr (constructor t opts h))) = Inr Inert
       \<and> public_checkForChanges (fst (projr (constructor t opts h))) = Inl TypeError
       \<and> public_getChanges (fst (projr (constructor t opts h))) = Inl TypeError
       \<and> public_resetState (fst (projr (constructor t opts h))) = Inl TypeError"
  using assms by (simp add: constructor_def)

theorem unresolved_target_witness:
  "resolveForm (pageWith []) (Selector ''#missing'') = Inr None
   \<and> constructor (Selector ''#missing'') withCallback (pageWith []) =
       Inr (Inert, (pageWith [])\<lparr>h_console := h_console (pageWith []) @ [''Form not found'']\<rparr>)
   \<and> public_resetState
         (fst (projr (constructor (Selector ''#missing'') withCallback (pageWith [])))) = Inl TypeError"
proof -
  have a: "resolveForm (pageWith []) (Selector ''#missing'') = Inr None"
    by (simp add: resolveForm_def pageWith_def)
  note r = unresolved_target [OF a, of withCallback]
  show ?thesis
    by (rule conjI [OF a conjI [OF r [THEN conjunct1]
          r [THEN conjunct2, THEN conjunct2, THEN conjunct2, THEN conjunct2, THEN conjunct2,
             THEN conjunct2, THEN conjunct2]]])
qed

end
